theory Spec2Isabelle
  imports Complex_Main
begin

section \<open>Data model (src/link-to-JSON.go, lines 20-37)\<close>

text \<open>
  The two structs of the service. Go's \<^verbatim>\<open>int\<close> fields are modelled as \<open>int\<close>; a
  missing string is Go's zero value, the empty string. Both structs have a field
  \<^verbatim>\<open>URL\<close>; the image's is \<open>URL_img\<close> here. \<^verbatim>\<open>Domain\<close> is \<open>Domain_f\<close>, since
  \<open>Domain\<close> is the domain of a relation in HOL.
\<close>

record WebImage =
  URL_img :: string
  Alt :: string
  Type_img :: string
  Width :: int
  Height :: int

record ResponseItem =
  Title :: string
  Description :: string
  Images :: "WebImage list"
  Sitename :: string
  Favicon :: string
  Duration :: int
  Domain_f :: string
  URL :: string

definition WebImage_zero :: WebImage where
  "WebImage_zero = \<lparr>URL_img = [], Alt = [], Type_img = [], Width = 0, Height = 0\<rparr>"

section \<open>The libraries the service calls\<close>

subsection \<open>Functions of the Go standard library, taken as parameters\<close>

text \<open>
  \<^verbatim>\<open>net/url\<close>, \<^verbatim>\<open>strconv\<close> and the network are not part of the repository. They are
  parameters of the model:
  \<^item> \<open>URL_Parse u\<close> is \<^verbatim>\<open>url.Parse(u)\<close>: \<open>None\<close> when it returns an error, else the
    scheme and the host of the parsed URL;
  \<^item> \<open>URL_ParseRequestURI u\<close> holds when \<^verbatim>\<open>url.ParseRequestURI(u)\<close> returns no error;
  \<^item> \<open>Atoi a\<close> is \<^verbatim>\<open>strconv.Atoi(a)\<close>, \<open>None\<close> when it returns an error;
  \<^item> \<open>http_get n u\<close> is what the \<open>n\<close>-th visit of the process (counted from 0) finds at
    \<open>u\<close>: \<open>None\<close> when the visit returns an error (network failure, non-success status),
    else the elements of the document in document order. The index lets the network
    answer differently at different times.
\<close>

record HTMLElement =
  Name :: string
  Attrs :: "(string \<times> string) list"
  Text :: string

record env =
  URL_Parse :: "string \<Rightarrow> (string \<times> string) option"
  URL_ParseRequestURI :: "string \<Rightarrow> bool"
  Atoi :: "string \<Rightarrow> int option"
  http_get :: "nat \<Rightarrow> string \<Rightarrow> HTMLElement list option"

subsection \<open>The scraping library (colly)\<close>

text \<open>
  Modelled from the spec: the collector of \<^verbatim>\<open>github.com/gocolly/colly\<close> is not under src/.
  Section 4.1 of the spec: each matcher is triggered by an element/attribute shape,
  \<^verbatim>\<open>tag\<close> or \<^verbatim>\<open>tag[attr="value"]\<close>, a comma-separated selector matches when one of its
  parts does, matches are visited in document order, and an absent attribute reads as
  the empty string.
\<close>

datatype selector = SelTag string | SelAttr string string string

fun matches :: "selector \<Rightarrow> HTMLElement \<Rightarrow> bool" where
  "matches (SelTag t) e = (Name e = t)"
| "matches (SelAttr t k v) e = (Name e = t \<and> (k, v) \<in> set (Attrs e))"

definition matches_any :: "selector list \<Rightarrow> HTMLElement \<Rightarrow> bool" where
  "matches_any sels e = list_ex (\<lambda>s. matches s e) sels"

definition Attr :: "HTMLElement \<Rightarrow> string \<Rightarrow> string" where
  "Attr e k = (case map_of (Attrs e) k of None \<Rightarrow> [] | Some v \<Rightarrow> v)"

text \<open>
  Modelled from the spec: the dispatch of the registered \<^verbatim>\<open>OnHTML\<close> callbacks, which is
  colly's and not under src/. Every callback runs on each element its selector matches,
  in document order (section 4.1).
\<close>

type_synonym 'a HTMLCallback = "selector list \<times> (HTMLElement \<Rightarrow> 'a \<Rightarrow> 'a)"

definition run_callback :: "HTMLElement list \<Rightarrow> 'a HTMLCallback \<Rightarrow> 'a \<Rightarrow> 'a" where
  "run_callback doc cb st = fold (snd cb) (filter (matches_any (fst cb)) doc) st"

definition handleOnHTML :: "'a HTMLCallback list \<Rightarrow> HTMLElement list \<Rightarrow> 'a \<Rightarrow> 'a" where
  "handleOnHTML cbs doc st = fold (run_callback doc) cbs st"


subsection \<open>The cache (go-cache)\<close>

text \<open>
  Modelled from the spec: \<^verbatim>\<open>github.com/patrickmn/go-cache\<close> is not under src/. Section 4.3:
  a mapping from URL to record with a fixed time-to-live from insertion (30 minutes,
  the first argument of \<^verbatim>\<open>cache.New\<close> at line 41); \<open>set\<close> overwrites an entry and resets
  its time-to-live; an expired entry is never returned, the age being checked at
  lookup. Times are nanoseconds. An entry holds what the code stores: the pointer to
  the record.
\<close>

type_synonym Cache = "string \<Rightarrow> (nat \<times> int) option"

definition DefaultExpiration :: int where
  "DefaultExpiration = 30 * 60 * 1000000000"

definition cache_Get :: "Cache \<Rightarrow> int \<Rightarrow> string \<Rightarrow> nat option" where
  "cache_Get c now k =
     (case c k of
        None \<Rightarrow> None
      | Some (obj, expiration) \<Rightarrow> if now > expiration then None else Some obj)"

definition cache_Set :: "Cache \<Rightarrow> int \<Rightarrow> string \<Rightarrow> nat \<Rightarrow> Cache" where
  "cache_Set c now k obj = c(k \<mapsto> (obj, now + DefaultExpiration))"

subsection \<open>The rate limiter (golang.org/x/time/rate)\<close>

text \<open>
  Modelled from the spec: \<^verbatim>\<open>golang.org/x/time/rate\<close> is not under src/. Section 4.4 and
  the glossary: a token bucket with a capacity (burst) and a steady refill rate; a
  request consumes one token; \<open>Allow\<close> never blocks and returns false when no token is
  available at call time. Tokens are exact rationals, times are nanoseconds, and a
  denied request leaves the bucket as it was.
\<close>

record Limiter =
  limit :: rat
  burst :: nat
  tokens :: rat
  last_t :: int

definition NewLimiter :: "rat \<Rightarrow> nat \<Rightarrow> Limiter" where
  "NewLimiter r b = \<lparr>limit = r, burst = b, tokens = of_nat b, last_t = 0\<rparr>"

definition advance :: "Limiter \<Rightarrow> int \<Rightarrow> rat" where
  "advance lm t =
     (let last' = (if t < last_t lm then t else last_t lm);
          elapsed = t - last';
          tokens' = tokens lm + (of_int elapsed / 1000000000) * limit lm
      in if tokens' > of_nat (burst lm) then of_nat (burst lm) else tokens')"

definition Allow :: "int \<Rightarrow> Limiter \<Rightarrow> bool \<times> Limiter" where
  "Allow t lm =
     (let tokens' = advance lm t
      in if tokens' \<ge> 1 then (True, lm\<lparr>tokens := tokens' - 1, last_t := t\<rparr>)
         else (False, lm))"

section \<open>The process state\<close>

text \<open>
  The package-level variables \<^verbatim>\<open>rateLimiter\<close> and \<^verbatim>\<open>cch\<close> (lines 39-43), and the
  records the cache points to. The cache stores \<^verbatim>\<open>*ResponseItem\<close>, and the handler
  writes through the pointer it gets back, so records live in a store: \<open>heap\<close> maps an
  address to the record there, \<open>next_ptr\<close> is the first address not yet allocated.
  \<open>fetches\<close> is instrumentation: the arguments of the calls of \<^verbatim>\<open>Visit\<close>, in order.
\<close>

record server =
  rateLimiter :: Limiter
  cch :: Cache
  heap :: "nat \<Rightarrow> ResponseItem"
  next_ptr :: nat
  fetches :: "string list"

definition ResponseItem_zero :: ResponseItem where
  "ResponseItem_zero =
     \<lparr>Title = [], Description = [], Images = [], Sitename = [], Favicon = [],
      Duration = 0, Domain_f = [], URL = []\<rparr>"

definition init :: server where
  "init = \<lparr>rateLimiter = NewLimiter 1 3, cch = Map.empty,
           heap = (\<lambda>_. ResponseItem_zero), next_ptr = 0, fetches = []\<rparr>"

section \<open>fetchMetadata (src/link-to-JSON.go, lines 45-137)\<close>

text \<open>The variables the callbacks close over: \<^verbatim>\<open>result\<close> and \<^verbatim>\<open>webImage\<close>.\<close>

record scrape =
  result :: ResponseItem
  webImage :: WebImage

datatype error = VisitError

text \<open>\<^verbatim>\<open>getBaseDomain\<close>, lines 130-137.\<close>

definition getBaseDomain :: "env \<Rightarrow> string \<Rightarrow> string" where
  "getBaseDomain ev url =
     (case URL_Parse ev url of
        None \<Rightarrow> []
      | Some (scheme, host) \<Rightarrow> scheme @ ''://'' @ host)"

text \<open>The callbacks of lines 60-96, in the order they are registered.\<close>

definition on_title :: "HTMLElement \<Rightarrow> scrape \<Rightarrow> scrape" where
  "on_title e st =
     (if Title (result st) = [] then st\<lparr>result := (result st)\<lparr>Title := Text e\<rparr>\<rparr> else st)"

definition on_description :: "HTMLElement \<Rightarrow> scrape \<Rightarrow> scrape" where
  "on_description e st = st\<lparr>result := (result st)\<lparr>Description := Attr e ''content''\<rparr>\<rparr>"

definition on_icon :: "HTMLElement \<Rightarrow> scrape \<Rightarrow> scrape" where
  "on_icon e st =
     (if Favicon (result st) = []
      then st\<lparr>result := (result st)\<lparr>Favicon := Domain_f (result st) @ Attr e ''href''\<rparr>\<rparr>
      else st)"

definition on_site_name :: "HTMLElement \<Rightarrow> scrape \<Rightarrow> scrape" where
  "on_site_name e st = st\<lparr>result := (result st)\<lparr>Sitename := Attr e ''content''\<rparr>\<rparr>"

definition on_image :: "HTMLElement \<Rightarrow> scrape \<Rightarrow> scrape" where
  "on_image e st = st\<lparr>webImage := (webImage st)\<lparr>URL_img := Attr e ''content''\<rparr>\<rparr>"

definition on_image_alt :: "HTMLElement \<Rightarrow> scrape \<Rightarrow> scrape" where
  "on_image_alt e st = st\<lparr>webImage := (webImage st)\<lparr>Alt := Attr e ''content''\<rparr>\<rparr>"

definition on_image_type :: "HTMLElement \<Rightarrow> scrape \<Rightarrow> scrape" where
  "on_image_type e st = st\<lparr>webImage := (webImage st)\<lparr>Type_img := Attr e ''content''\<rparr>\<rparr>"

definition on_image_width :: "env \<Rightarrow> HTMLElement \<Rightarrow> scrape \<Rightarrow> scrape" where
  "on_image_width ev e st =
     (case Atoi ev (Attr e ''content'') of
        Some width \<Rightarrow> st\<lparr>webImage := (webImage st)\<lparr>Width := width\<rparr>\<rparr>
      | None \<Rightarrow> st)"

definition on_image_height :: "env \<Rightarrow> HTMLElement \<Rightarrow> scrape \<Rightarrow> scrape" where
  "on_image_height ev e st =
     (case Atoi ev (Attr e ''content'') of
        Some height \<Rightarrow> st\<lparr>webImage := (webImage st)\<lparr>Height := height\<rparr>\<rparr>
      | None \<Rightarrow> st)"

definition sel_description :: "selector list" where
  "sel_description = [SelAttr ''meta'' ''name'' ''description'']"

definition sel_icon :: "selector list" where
  "sel_icon =
     [SelAttr ''link'' ''rel'' ''icon'', SelAttr ''link'' ''rel'' ''shortcut icon'',
      SelAttr ''link'' ''rel'' ''apple-touch-icon'',
      SelAttr ''link'' ''rel'' ''apple-touch-icon-precomposed'']"

definition sel_site_name :: "selector list" where
  "sel_site_name = [SelAttr ''meta'' ''property'' ''og:site_name'']"

definition sel_og_title :: "selector list" where
  "sel_og_title = [SelAttr ''meta'' ''property'' ''og:title'']"

definition callbacks :: "env \<Rightarrow> scrape HTMLCallback list" where
  "callbacks ev =
     [([SelTag ''title''], on_title),
      (sel_description, on_description),
      (sel_icon, on_icon),
      (sel_site_name, on_site_name),
      ([SelAttr ''meta'' ''property'' ''og:image''], on_image),
      ([SelAttr ''meta'' ''property'' ''og:image:alt''], on_image_alt),
      ([SelAttr ''meta'' ''property'' ''og:image:type''], on_image_type),
      ([SelAttr ''meta'' ''property'' ''og:image:width''], on_image_width ev),
      ([SelAttr ''meta'' ''property'' ''og:image:height''], on_image_height ev)]"

text \<open>The \<^verbatim>\<open>OnScraped\<close> callback, lines 97-100.\<close>

definition OnScraped :: "scrape \<Rightarrow> scrape" where
  "OnScraped st = st\<lparr>result := (result st)\<lparr>Images := Images (result st) @ [webImage st]\<rparr>\<rparr>"

text \<open>The callback of the second collector, lines 112-115.\<close>

definition on_og_title :: "HTMLElement \<Rightarrow> scrape \<Rightarrow> scrape" where
  "on_og_title e st = st\<lparr>result := (result st)\<lparr>Sitename := Attr e ''content''\<rparr>\<rparr>"

definition callbacks2 :: "scrape HTMLCallback list" where
  "callbacks2 = [(sel_og_title, on_og_title)]"

text \<open>
  \<^verbatim>\<open>Collector.Visit\<close>: the visit is logged; when it fails the error is returned and no
  callback has run; otherwise the \<^verbatim>\<open>OnHTML\<close> callbacks run over the document and then
  the \<^verbatim>\<open>OnScraped\<close> callback, once.
\<close>

definition Visit ::
  "env \<Rightarrow> scrape HTMLCallback list \<Rightarrow> (scrape \<Rightarrow> scrape) \<Rightarrow> string \<Rightarrow> scrape \<Rightarrow> server
     \<Rightarrow> (error + scrape) \<times> server" where
  "Visit ev cbs scraped url st s =
     (let s' = s\<lparr>fetches := fetches s @ [url]\<rparr>
      in case http_get ev (length (fetches s)) url of
           None \<Rightarrow> (Inl VisitError, s')
         | Some doc \<Rightarrow> (Inr (scraped (handleOnHTML cbs doc st)), s'))"

text \<open>
  Lines 124-127: the record is cached under \<^verbatim>\<open>url\<close> and its pointer returned. Until
  then no other code holds the pointer \<^verbatim>\<open>result\<close>, so the record is built as a value
  and placed in the store here.
\<close>

definition cache_result :: "int \<Rightarrow> string \<Rightarrow> ResponseItem \<Rightarrow> server \<Rightarrow> (error + nat) \<times> server" where
  "cache_result t_set url r s =
     (let p = next_ptr s
      in (Inr p, s\<lparr>heap := (heap s)(p := r), next_ptr := Suc p,
                   cch := cache_Set (cch s) t_set url p\<rparr>))"

text \<open>Lines 56-58: the fresh record and the image descriptor in progress.\<close>

definition new_scrape :: "env \<Rightarrow> string \<Rightarrow> scrape" where
  "new_scrape ev url =
     \<lparr>result = ResponseItem_zero\<lparr>URL := url, Domain_f := getBaseDomain ev url\<rparr>,
      webImage = WebImage_zero\<rparr>"

text \<open>
  \<^verbatim>\<open>fetchMetadata\<close>, lines 45-128. \<open>t_get\<close> and \<open>t_set\<close> are the clock readings of the
  cache at the lookup and at the store. The \<^verbatim>\<open>OnRequest\<close> callback (lines 52-55) logs and
  sets a header of the request; it touches nothing of the state modelled here.
\<close>

definition fetchMetadata :: "env \<Rightarrow> int \<Rightarrow> int \<Rightarrow> string \<Rightarrow> server \<Rightarrow> (error + nat) \<times> server" where
  "fetchMetadata ev t_get t_set url s =
     (case cache_Get (cch s) t_get url of
        Some cached \<Rightarrow> (Inr cached, s)
      | None \<Rightarrow>
          (let st = new_scrape ev url
           in case Visit ev (callbacks ev) OnScraped url st s of
                (Inl err, s1) \<Rightarrow> (Inl err, s1)
              | (Inr st1, s1) \<Rightarrow>
                  if Sitename (result st1) = []
                  then (case Visit ev callbacks2 id (Domain_f (result st1)) st1 s1 of
                          (Inl err, s2) \<Rightarrow> (Inl err, s2)
                        | (Inr st2, s2) \<Rightarrow> cache_result t_set url (result st2) s2)
                  else cache_result t_set url (result st1) s1))"

section \<open>The handlers of the endpoint\<close>

text \<open>
  A request: the \<^verbatim>\<open>url\<close> query parameter if present, the clock readings of the limiter
  and of the cache, and the milliseconds \<^verbatim>\<open>time.Since(startTime)\<close> measures.
\<close>

record request =
  url_param :: "string option"
  t_arrival :: int
  t_lookup :: int
  t_store :: int
  elapsed_ms :: int

datatype body = H string | Metadata ResponseItem

record response =
  status :: nat
  payload :: body

text \<open>\<^verbatim>\<open>c.Query("url")\<close>: the empty string when the parameter is missing.\<close>

definition Query :: "request \<Rightarrow> string" where
  "Query rq = (case url_param rq of None \<Rightarrow> [] | Some u \<Rightarrow> u)"

definition JSON :: "nat \<Rightarrow> body \<Rightarrow> response" where
  "JSON code b = \<lparr>status = code, payload = b\<rparr>"

text \<open>Lines 179-182 (lines 77-80 of the root main): the duration is written through the pointer.\<close>

definition respond :: "request \<Rightarrow> nat \<Rightarrow> server \<Rightarrow> response \<times> server" where
  "respond rq p s =
     (let s' = s\<lparr>heap := (heap s)(p := (heap s p)\<lparr>Duration := elapsed_ms rq\<rparr>)\<rparr>
      in (JSON 200 (Metadata (heap s' p)), s'))"

text \<open>The handler of src/link-to-JSON.go, lines 160-183.\<close>

definition extractHandler :: "env \<Rightarrow> request \<Rightarrow> server \<Rightarrow> response \<times> server" where
  "extractHandler ev rq s =
     (case Allow (t_arrival rq) (rateLimiter s) of
        (ok, lm) \<Rightarrow>
          (let s0 = s\<lparr>rateLimiter := lm\<rparr>
           in if \<not> ok then (JSON 429 (H ''Too many requests''), s0)
              else if Query rq = [] then (JSON 400 (H ''URL parameter is required''), s0)
              else (case fetchMetadata ev (t_lookup rq) (t_store rq) (Query rq) s0 of
                      (Inl err, s1) \<Rightarrow> (JSON 500 (H ''Failed to fetch metadata''), s1)
                    | (Inr p, s1) \<Rightarrow> respond rq p s1)))"

text \<open>
  The handler of the root main (src/unnamed/part_000, lines 49-81). It calls
  \<^verbatim>\<open>link2json.GetMetadata\<close> of another repository, a parameter here.
\<close>

definition extractMainHandler ::
  "env \<Rightarrow> (string \<Rightarrow> server \<Rightarrow> (error + nat) \<times> server) \<Rightarrow> request \<Rightarrow> server
     \<Rightarrow> response \<times> server" where
  "extractMainHandler ev GetMetadata rq s =
     (case Allow (t_arrival rq) (rateLimiter s) of
        (ok, lm) \<Rightarrow>
          (let s0 = s\<lparr>rateLimiter := lm\<rparr>
           in if \<not> ok then (JSON 429 (H ''Too many requests''), s0)
              else if Query rq = [] then (JSON 400 (H ''URL parameter is required''), s0)
              else if \<not> URL_ParseRequestURI ev (Query rq) then (JSON 400 (H ''Invalid URL''), s0)
              else (case GetMetadata (Query rq) s0 of
                      (Inl err, s1) \<Rightarrow> (JSON 500 (H ''Failed to fetch metadata''), s1)
                    | (Inr p, s1) \<Rightarrow> respond rq p s1)))"

text \<open>Requests served one after the other.\<close>

fun serve :: "env \<Rightarrow> request list \<Rightarrow> server \<Rightarrow> response list \<times> server" where
  "serve ev [] s = ([], s)"
| "serve ev (rq # rqs) s =
     (case extractHandler ev rq s of
        (r, s1) \<Rightarrow> (case serve ev rqs s1 of (rs, s2) \<Rightarrow> (r # rs, s2)))"

section \<open>A sample network\<close>

text \<open>
  Concrete inputs for the closed theorems below: a page with a title, two description
  tags, a site name, an icon and image fields; a page without a site name, and the
  root of its domain with an Open Graph title; the same page without a site name on a
  host whose root does not answer; a host that is down. \<open>URL_Parse\<close> is given at the
  addresses used below, with the scheme and host \<^verbatim>\<open>url.Parse\<close> finds there; it
  rejects the address with an invalid escape, where no visit succeeds.
\<close>

definition meta_tag :: "string \<Rightarrow> string \<Rightarrow> string \<Rightarrow> HTMLElement" where
  "meta_tag k v c = \<lparr>Name = ''meta'', Attrs = [(k, v), (''content'', c)], Text = []\<rparr>"

definition page0 :: "HTMLElement list" where
  "page0 =
     [\<lparr>Name = ''title'', Attrs = [], Text = ''Foo''\<rparr>,
      meta_tag ''name'' ''description'' ''first'',
      \<lparr>Name = ''link'', Attrs = [(''rel'', ''icon''), (''href'', ''/f.ico'')], Text = []\<rparr>,
      meta_tag ''name'' ''description'' ''second'',
      meta_tag ''property'' ''og:site_name'' ''A'',
      meta_tag ''property'' ''og:image'' ''/a.png'',
      meta_tag ''property'' ''og:image:width'' ''abc'']"

definition page1 :: "HTMLElement list" where
  "page1 = [\<lparr>Name = ''title'', Attrs = [], Text = ''Bar''\<rparr>]"

definition home1 :: "HTMLElement list" where
  "home1 = [meta_tag ''property'' ''og:title'' ''B'']"

definition env0 :: env where
  "env0 =
     \<lparr>URL_Parse = (\<lambda>u. if u = ''http://a.test/p'' then Some (''http'', ''a.test'')
                       else if u = ''http://b.test/q'' \<or> u = ''http://b.test''
                         then Some (''http'', ''b.test'')
                       else if u = ''http://c.test/r'' \<or> u = ''http://c.test''
                         then Some (''http'', ''c.test'')
                       else if u = ''http://down.test/'' then Some (''http'', ''down.test'')
                       else if u = ''not-a-url'' \<or> u = [] then Some ([], [])
                       else None),
      URL_ParseRequestURI = (\<lambda>u. u = ''http://a.test/p'' \<or> u = ''http://b.test/q''),
      Atoi = (\<lambda>a. if a = ''640'' then Some 640 else None),
      http_get = (\<lambda>n u. if u = ''http://a.test/p'' then Some page0
                        else if u = ''http://b.test/q'' \<or> u = ''http://c.test/r'' then Some page1
                        else if u = ''http://b.test'' then Some home1
                        else None)\<rparr>"

definition get :: "string \<Rightarrow> int \<Rightarrow> int \<Rightarrow> request" where
  "get u t ms = \<lparr>url_param = Some u, t_arrival = t, t_lookup = t, t_store = t, elapsed_ms = ms\<rparr>"

text \<open>
  The state after a first request for the first page at time 0, answered in 5 ms, and
  after a second one a second later, answered in 7 ms; and the record the page yields.
\<close>

definition rec0 :: ResponseItem where
  "rec0 = \<lparr>Title = ''Foo'', Description = ''second'',
            Images = [\<lparr>URL_img = ''/a.png'', Alt = [], Type_img = [], Width = 0, Height = 0\<rparr>],
            Sitename = ''A'', Favicon = ''http://a.test/f.ico'', Duration = 0,
            Domain_f = ''http://a.test'', URL = ''http://a.test/p''\<rparr>"

definition s1 :: server where
  "s1 = snd (extractHandler env0 (get ''http://a.test/p'' 0 5) init)"

definition s2 :: server where
  "s2 = snd (extractHandler env0 (get ''http://a.test/p'' 1000000000 7) s1)"

section \<open>Auxiliary notions\<close>

text \<open>Every pointer the cache holds has been allocated.\<close>

definition wf :: "server \<Rightarrow> bool" where
  "wf s = (\<forall>u p e. cch s u = Some (p, e) \<longrightarrow> p < next_ptr s)"

text \<open>The answers of the limiter to calls of \<open>Allow\<close> at the given times, in order.\<close>

fun allows :: "int list \<Rightarrow> Limiter \<Rightarrow> bool list" where
  "allows [] lm = []"
| "allows (t # ts) lm = fst (Allow t lm) # allows ts (snd (Allow t lm))"

section \<open>The extractor\<close>

lemma fold_keeps:
  assumes "\<And>e st. g (f e st) = g st"
  shows "g (fold f es st) = g st"
  by (induction es arbitrary: st) (simp_all add: assms)

lemma run_callback_keeps:
  assumes "\<And>e st. g (f e st) = g st"
  shows "g (run_callback doc (sel, f) st) = g st"
  unfolding run_callback_def using assms by (simp add: fold_keeps)

lemma handleOnHTML_keeps:
  assumes "\<And>sel f e st. (sel, f) \<in> set cbs \<Longrightarrow> g (f e st) = g st"
  shows "g (handleOnHTML cbs doc st) = g st"
  unfolding handleOnHTML_def using assms
proof (induction cbs arbitrary: st)
  case Nil
  then show ?case by simp
next
  case (Cons cb cbs)
  obtain sel f where cb: "cb = (sel, f)" by (cases cb)
  have 1: "g (run_callback doc cb st) = g st"
    unfolding cb by (rule run_callback_keeps) (rule Cons.prems [of sel f], simp add: cb)
  have "g (fold (run_callback doc) cbs (run_callback doc cb st)) = g (run_callback doc cb st)"
  proof (rule Cons.IH)
    fix sel' f' e st'
    assume "(sel', f') \<in> set cbs"
    then show "g (f' e st') = g st'" using Cons.prems [of sel' f'] by simp
  qed
  with 1 show ?case by simp
qed

lemmas on_defs = on_title_def on_description_def on_icon_def on_site_name_def on_image_def
  on_image_alt_def on_image_type_def on_image_width_def on_image_height_def

lemma fold_on_description:
  "Description (result (fold on_description es st)) =
     (if es = [] then Description (result st) else Attr (last es) ''content'')"
  by (induction es arbitrary: st) (simp_all add: on_description_def)

lemma Description_handleOnHTML:
  "Description (result (handleOnHTML (callbacks ev) doc st)) =
     (if filter (matches_any sel_description) doc = [] then Description (result st)
      else Attr (last (filter (matches_any sel_description) doc)) ''content'')"
proof -
  have k: "\<And>sel f st. (\<And>e st. Description (result (f e st)) = Description (result st)) \<Longrightarrow>
      Description (result (run_callback doc (sel, f) st)) = Description (result st)"
    by (rule run_callback_keeps [where g = "\<lambda>st. Description (result st)"])
  have d: "\<And>st. Description (result (run_callback doc (sel_description, on_description) st)) =
     (if filter (matches_any sel_description) doc = [] then Description (result st)
      else Attr (last (filter (matches_any sel_description) doc)) ''content'')"
    by (simp add: run_callback_def fold_on_description)
  show ?thesis
    apply (simp only: handleOnHTML_def callbacks_def fold_simps)
    apply (simp add: k d on_title_def on_icon_def on_site_name_def on_image_def
  on_image_alt_def on_image_type_def on_image_width_def on_image_height_def split: option.splits)
    done
qed

lemma Images_handleOnHTML:
  "Images (result (handleOnHTML (callbacks ev) doc st)) = Images (result st)"
proof -
  have k: "\<And>sel f st. (\<And>e st. Images (result (f e st)) = Images (result st)) \<Longrightarrow>
      Images (result (run_callback doc (sel, f) st)) = Images (result st)"
    by (rule run_callback_keeps [where g = "\<lambda>st. Images (result st)"])
  show ?thesis
    apply (simp only: handleOnHTML_def callbacks_def fold_simps)
    apply (simp add: k on_defs split: option.splits)
    done
qed

lemma Sitename_handleOnHTML:
  "Sitename (result (handleOnHTML (callbacks ev) doc st)) =
     (if filter (matches_any sel_site_name) doc = [] then Sitename (result st)
      else Attr (last (filter (matches_any sel_site_name) doc)) ''content'')"
proof -
  have k: "\<And>sel f st. (\<And>e st. Sitename (result (f e st)) = Sitename (result st)) \<Longrightarrow>
      Sitename (result (run_callback doc (sel, f) st)) = Sitename (result st)"
    by (rule run_callback_keeps [where g = "\<lambda>st. Sitename (result st)"])
  have f: "\<And>es st. Sitename (result (fold on_site_name es st)) =
     (if es = [] then Sitename (result st) else Attr (last es) ''content'')"
    subgoal for es st by (induction es arbitrary: st) (simp_all add: on_site_name_def)
    done
  have d: "\<And>st. Sitename (result (run_callback doc (sel_site_name, on_site_name) st)) =
     (if filter (matches_any sel_site_name) doc = [] then Sitename (result st)
      else Attr (last (filter (matches_any sel_site_name) doc)) ''content'')"
    by (simp add: run_callback_def f)
  show ?thesis
    apply (simp only: handleOnHTML_def callbacks_def fold_simps)
    apply (simp add: k d on_title_def on_icon_def on_description_def on_image_def
  on_image_alt_def on_image_type_def on_image_width_def on_image_height_def split: option.splits)
    done
qed

lemma Domain_handleOnHTML:
  "Domain_f (result (handleOnHTML (callbacks ev) doc st)) = Domain_f (result st)"
  by (rule handleOnHTML_keeps [where g = "\<lambda>st. Domain_f (result st)"])
     (auto simp: callbacks_def on_defs split: option.splits)

lemma fold_on_og_title:
  "fold on_og_title es st =
     (if es = [] then st else st\<lparr>result := (result st)\<lparr>Sitename := Attr (last es) ''content''\<rparr>\<rparr>)"
  by (induction es arbitrary: st) (simp_all add: on_og_title_def)

lemma handleOnHTML_callbacks2:
  "handleOnHTML callbacks2 doc st =
     (if filter (matches_any sel_og_title) doc = [] then st
      else st\<lparr>result := (result st)\<lparr>Sitename :=
             Attr (last (filter (matches_any sel_og_title) doc)) ''content''\<rparr>\<rparr>)"
  by (simp add: handleOnHTML_def callbacks2_def run_callback_def fold_on_og_title)

lemma Domain_scraped:
  "Domain_f (result (OnScraped (handleOnHTML (callbacks ev) doc (new_scrape ev url)))) =
     getBaseDomain ev url"
  by (simp add: OnScraped_def Domain_handleOnHTML new_scrape_def)

lemma Images_scraped:
  "Images (result (OnScraped (handleOnHTML (callbacks ev) doc (new_scrape ev url)))) =
     [webImage (handleOnHTML (callbacks ev) doc (new_scrape ev url))]"
  by (simp add: OnScraped_def Images_handleOnHTML new_scrape_def ResponseItem_zero_def)

lemma Description_scraped:
  "Description (result (OnScraped (handleOnHTML (callbacks ev) doc (new_scrape ev url)))) =
     (if filter (matches_any sel_description) doc = [] then []
      else Attr (last (filter (matches_any sel_description) doc)) ''content'')"
  by (simp add: OnScraped_def Description_handleOnHTML new_scrape_def ResponseItem_zero_def)

lemma Sitename_scraped:
  "Sitename (result (OnScraped (handleOnHTML (callbacks ev) doc (new_scrape ev url)))) =
     (if filter (matches_any sel_site_name) doc = [] then []
      else Attr (last (filter (matches_any sel_site_name) doc)) ''content'')"
  by (simp add: OnScraped_def Sitename_handleOnHTML new_scrape_def ResponseItem_zero_def)

section \<open>The outcomes of fetchMetadata\<close>

lemma fetchMetadata_hit:
  assumes "cache_Get (cch s) t_get url = Some p"
  shows "fetchMetadata ev t_get t_set url s = (Inr p, s)"
  using assms by (simp add: fetchMetadata_def)

lemma fetchMetadata_miss:
  assumes "cache_Get (cch s) t_get url = None"
  shows "fetchMetadata ev t_get t_set url s =
   (let n = length (fetches s); s1 = s\<lparr>fetches := fetches s @ [url]\<rparr> in
    case http_get ev n url of None \<Rightarrow> (Inl VisitError, s1)
    | Some doc \<Rightarrow> let st1 = OnScraped (handleOnHTML (callbacks ev) doc (new_scrape ev url)) in
        if Sitename (result st1) = [] then
          let d = Domain_f (result st1); s2 = s\<lparr>fetches := fetches s @ [url, d]\<rparr> in
          (case http_get ev (Suc n) d of None \<Rightarrow> (Inl VisitError, s2)
           | Some doc2 \<Rightarrow> cache_result t_set url (result (handleOnHTML callbacks2 doc2 st1)) s2)
        else cache_result t_set url (result st1) s1)"
  using assms by (simp add: fetchMetadata_def Visit_def Let_def split: option.splits)

lemma fetchMetadata_miss_cases:
  assumes miss: "cache_Get (cch s) t_get url = None"
  obtains (fail) fs where "fetchMetadata ev t_get t_set url s = (Inl VisitError, s\<lparr>fetches := fs\<rparr>)"
  | (ok) fs r where "fetchMetadata ev t_get t_set url s =
        (Inr (next_ptr s), s\<lparr>fetches := fs, heap := (heap s)(next_ptr s := r),
           next_ptr := Suc (next_ptr s),
           cch := (cch s)(url \<mapsto> (next_ptr s, t_set + DefaultExpiration))\<rparr>)"
proof (cases "fst (fetchMetadata ev t_get t_set url s)")
  case (Inl e)
  then have "\<exists>fs. fetchMetadata ev t_get t_set url s = (Inl VisitError, s\<lparr>fetches := fs\<rparr>)"
    by (auto simp: fetchMetadata_miss [OF miss] Let_def cache_result_def
        split: option.splits if_splits)
  then show ?thesis using fail by blast
next
  case (Inr p)
  then have "\<exists>fs r. fetchMetadata ev t_get t_set url s =
        (Inr (next_ptr s), s\<lparr>fetches := fs, heap := (heap s)(next_ptr s := r),
           next_ptr := Suc (next_ptr s),
           cch := (cch s)(url \<mapsto> (next_ptr s, t_set + DefaultExpiration))\<rparr>)"
    by (auto simp: fetchMetadata_miss [OF miss] Let_def cache_result_def cache_Set_def
        split: option.splits if_splits)
  then show ?thesis using ok by blast
qed

lemma fetchMetadata_miss_record:
  assumes miss: "cache_Get (cch s) t_get url = None"
    and doc: "http_get ev (length (fetches s)) url = Some doc"
    and ok: "fst (fetchMetadata ev t_get t_set url s) = Inr p"
  shows "\<exists>sn. heap (snd (fetchMetadata ev t_get t_set url s)) p =
           (result (OnScraped (handleOnHTML (callbacks ev) doc (new_scrape ev url))))\<lparr>Sitename := sn\<rparr>"
proof -
  let ?r = "result (OnScraped (handleOnHTML (callbacks ev) doc (new_scrape ev url)))"
  show ?thesis
  proof (cases "Sitename ?r = []")
    case False
    with ok have "heap (snd (fetchMetadata ev t_get t_set url s)) p = ?r"
      by (simp add: fetchMetadata_miss [OF miss] doc Let_def cache_result_def)
    then have "heap (snd (fetchMetadata ev t_get t_set url s)) p = ?r\<lparr>Sitename := Sitename ?r\<rparr>"
      by simp
    then show ?thesis by blast
  next
    case True
    with ok obtain doc2 where
      d2: "http_get ev (Suc (length (fetches s))) (Domain_f ?r) = Some doc2"
      by (cases "http_get ev (Suc (length (fetches s))) (Domain_f ?r)")
         (simp_all add: fetchMetadata_miss [OF miss] doc Let_def)
    with True ok have "heap (snd (fetchMetadata ev t_get t_set url s)) p =
        result (handleOnHTML callbacks2 doc2
          (OnScraped (handleOnHTML (callbacks ev) doc (new_scrape ev url))))"
      by (simp add: fetchMetadata_miss [OF miss] doc Let_def cache_result_def)
    then show ?thesis
      using True by (auto simp: handleOnHTML_callbacks2 intro: exI [where x = "[]"])
  qed
qed

lemma rateLimiter_fetchMetadata:
  "rateLimiter (snd (fetchMetadata ev t_get t_set url s)) = rateLimiter s"
proof (cases "cache_Get (cch s) t_get url")
  case (Some p)
  then show ?thesis by (simp add: fetchMetadata_hit)
next
  case None
  then show ?thesis
    by (cases rule: fetchMetadata_miss_cases [where ev = ev and t_set = t_set]) simp_all
qed

lemma fetch_fails:
  assumes miss: "cache_Get (cch s) t_get url = None"
    and fail: "http_get ev (length (fetches s)) url = None \<or>
       (\<exists>doc. http_get ev (length (fetches s)) url = Some doc \<and>
          Sitename (result (OnScraped (handleOnHTML (callbacks ev) doc (new_scrape ev url)))) = [] \<and>
          http_get ev (Suc (length (fetches s))) (getBaseDomain ev url) = None)"
  shows "fst (fetchMetadata ev t_get t_set url s) = Inl VisitError \<and>
         cch (snd (fetchMetadata ev t_get t_set url s)) = cch s \<and>
         heap (snd (fetchMetadata ev t_get t_set url s)) = heap s"
  using fail
proof
  assume "http_get ev (length (fetches s)) url = None"
  then show ?thesis by (simp add: fetchMetadata_miss [OF miss])
next
  assume "\<exists>doc. http_get ev (length (fetches s)) url = Some doc \<and>
          Sitename (result (OnScraped (handleOnHTML (callbacks ev) doc (new_scrape ev url)))) = [] \<and>
          http_get ev (Suc (length (fetches s))) (getBaseDomain ev url) = None"
  then obtain doc where "http_get ev (length (fetches s)) url = Some doc"
    "Sitename (result (OnScraped (handleOnHTML (callbacks ev) doc (new_scrape ev url)))) = []"
    "http_get ev (Suc (length (fetches s))) (getBaseDomain ev url) = None"
    by blast
  then show ?thesis
    by (simp add: fetchMetadata_miss [OF miss] Let_def Domain_scraped)
qed

section \<open>The handlers, step by step\<close>

lemma extractHandler_unfold:
  "extractHandler ev rq s =
     (let s0 = s\<lparr>rateLimiter := snd (Allow (t_arrival rq) (rateLimiter s))\<rparr>;
          out = fetchMetadata ev (t_lookup rq) (t_store rq) (Query rq) s0
      in if \<not> fst (Allow (t_arrival rq) (rateLimiter s))
         then (JSON 429 (H ''Too many requests''), s0)
         else if Query rq = [] then (JSON 400 (H ''URL parameter is required''), s0)
         else (case fst out of
                 Inl err \<Rightarrow> (JSON 500 (H ''Failed to fetch metadata''), snd out)
               | Inr p \<Rightarrow> respond rq p (snd out)))"
  by (simp add: extractHandler_def Let_def split: prod.splits sum.splits)

lemma extractHandler_hit:
  assumes adm: "fst (Allow (t_arrival rq) (rateLimiter s))"
    and url: "Query rq \<noteq> []"
    and hit: "cache_Get (cch s) (t_lookup rq) (Query rq) = Some p"
  shows "extractHandler ev rq s =
     (JSON 200 (Metadata ((heap s p)\<lparr>Duration := elapsed_ms rq\<rparr>)),
      s\<lparr>rateLimiter := snd (Allow (t_arrival rq) (rateLimiter s)),
        heap := (heap s)(p := (heap s p)\<lparr>Duration := elapsed_ms rq\<rparr>)\<rparr>)"
proof -
  let ?s0 = "s\<lparr>rateLimiter := snd (Allow (t_arrival rq) (rateLimiter s))\<rparr>"
  have "fetchMetadata ev (t_lookup rq) (t_store rq) (Query rq) ?s0 = (Inr p, ?s0)"
    by (rule fetchMetadata_hit) (simp add: hit)
  then show ?thesis
    using adm url by (simp add: extractHandler_unfold respond_def Let_def)
qed

lemma extractHandler_200:
  assumes "status (fst (extractHandler ev rq s)) = 200"
  shows "\<exists>p e. cch (snd (extractHandler ev rq s)) (Query rq) = Some (p, e) \<and>
           fst (extractHandler ev rq s) = JSON 200 (Metadata (heap (snd (extractHandler ev rq s)) p)) \<and>
           Duration (heap (snd (extractHandler ev rq s)) p) = elapsed_ms rq"
proof -
  let ?s0 = "s\<lparr>rateLimiter := snd (Allow (t_arrival rq) (rateLimiter s))\<rparr>"
  from assms have adm: "fst (Allow (t_arrival rq) (rateLimiter s))" and url: "Query rq \<noteq> []"
    by (auto simp: extractHandler_def JSON_def Let_def split: prod.splits if_splits)
  show ?thesis
  proof (cases "cache_Get (cch s) (t_lookup rq) (Query rq)")
    case (Some p)
    then obtain e where "cch s (Query rq) = Some (p, e)"
      by (auto simp: cache_Get_def split: option.splits if_splits)
    then show ?thesis
      by (simp add: extractHandler_hit [OF adm url Some])
  next
    case None
    then have miss: "cache_Get (cch ?s0) (t_lookup rq) (Query rq) = None" by simp
    from miss show ?thesis
    proof (cases rule: fetchMetadata_miss_cases [where ev = ev and t_set = "t_store rq"])
      case (fail fs)
      with assms adm url show ?thesis
        by (simp add: extractHandler_unfold JSON_def Let_def)
    next
      case (ok fs r)
      with adm url show ?thesis
        by (simp add: extractHandler_unfold respond_def Let_def)
    qed
  qed
qed

lemma extractHandler_limiter:
  "rateLimiter (snd (extractHandler ev rq s)) = snd (Allow (t_arrival rq) (rateLimiter s))"
  by (simp add: extractHandler_unfold Let_def respond_def rateLimiter_fetchMetadata
      split: sum.splits)

lemma extractHandler_429:
  "(fst (extractHandler ev rq s) = JSON 429 (H ''Too many requests'')) =
     (\<not> fst (Allow (t_arrival rq) (rateLimiter s)))"
  by (simp add: extractHandler_unfold Let_def respond_def JSON_def split: sum.splits)

lemma main_handler_validates:
  assumes "fst (Allow (t_arrival rq) (rateLimiter s))" "Query rq \<noteq> []"
    "\<not> URL_ParseRequestURI ev (Query rq)"
  shows "extractMainHandler ev G rq s =
      (JSON 400 (H ''Invalid URL''), s\<lparr>rateLimiter := snd (Allow (t_arrival rq) (rateLimiter s))\<rparr>)"
  using assms by (simp add: extractMainHandler_def case_prod_beta Let_def)

lemma wf_init: "wf init"
  by (simp add: wf_def init_def)

lemma wf_extractHandler:
  assumes "wf s"
  shows "wf (snd (extractHandler ev rq s))"
proof -
  let ?s0 = "s\<lparr>rateLimiter := snd (Allow (t_arrival rq) (rateLimiter s))\<rparr>"
  have wf0: "wf ?s0" using assms by (simp add: wf_def)
  show ?thesis
  proof (cases "cache_Get (cch ?s0) (t_lookup rq) (Query rq)")
    case (Some p)
    then show ?thesis
      using wf0 by (simp add: extractHandler_unfold fetchMetadata_hit respond_def Let_def wf_def)
  next
    case None
    then show ?thesis
    proof (cases rule: fetchMetadata_miss_cases [where ev = ev and t_set = "t_store rq"])
      case (fail fs)
      then show ?thesis
        using wf0 by (simp add: extractHandler_unfold Let_def wf_def)
    next
      case (ok fs r)
      then show ?thesis
        using wf0 by (auto simp: extractHandler_unfold respond_def Let_def wf_def less_Suc_eq)
    qed
  qed
qed

lemma serve_allows:
  "map (\<lambda>r. r = JSON 429 (H ''Too many requests'')) (fst (serve ev rqs s)) =
     map Not (allows (map t_arrival rqs) (rateLimiter s))"
proof (induction rqs arbitrary: s)
  case Nil
  show ?case by simp
next
  case (Cons rq rqs)
  have "map (\<lambda>r. r = JSON 429 (H ''Too many requests''))
          (fst (serve ev rqs (snd (extractHandler ev rq s)))) =
        map Not (allows (map t_arrival rqs) (snd (Allow (t_arrival rq) (rateLimiter s))))"
    by (simp add: Cons.IH extractHandler_limiter)
  then show ?case
    by (simp add: extractHandler_429 case_prod_beta)
qed

section \<open>The token bucket with rate 1 and burst 3\<close>

lemma Allow_step:
  assumes "limit lm = 1" "burst lm = 3" "last_t lm \<le> t"
    and "tokens lm + of_int (t - last_t lm) / 1000000000 \<le> 3"
  shows "Allow t lm =
     (if 1 \<le> tokens lm + of_int (t - last_t lm) / 1000000000
      then (True, lm\<lparr>tokens := tokens lm + of_int (t - last_t lm) / 1000000000 - 1, last_t := t\<rparr>)
      else (False, lm))"
  using assms by (simp add: Allow_def advance_def Let_def)

lemma Allow_fresh:
  "Allow t (NewLimiter 1 3) = (True, \<lparr>limit = 1, burst = 3, tokens = 2, last_t = t\<rparr>)"
proof (cases "t < 0")
  case True
  then show ?thesis by (simp add: Allow_def advance_def NewLimiter_def Let_def)
next
  case False
  then have "0 \<le> (of_int t :: rat)" by simp
  then have "\<not> (3 + of_int t / 1000000000 < (1 :: rat))" by (simp add: field_simps)
  moreover have "(3 + of_int t / 1000000000 > (3 :: rat)) \<or> of_int t / 1000000000 = (0::rat)"
    using False by (simp add: field_simps) linarith
  ultimately show ?thesis
    using False by (auto simp add: Allow_def advance_def NewLimiter_def Let_def)
qed

lemma allows_denied:
  assumes "limit lm = 1" "burst lm = 3"
    and "\<forall>x \<in> set xs. last_t lm \<le> x \<and> tokens lm + of_int (x - last_t lm) / 1000000000 < 1"
  shows "allows (xs @ ys) lm = replicate (length xs) False @ allows ys lm"
  using assms(3)
proof (induction xs)
  case Nil
  show ?case by simp
next
  case (Cons x xs)
  then have "Allow x lm = (False, lm)"
    using assms(1,2) by (subst Allow_step) simp_all
  with Cons show ?case by simp
qed

lemma allows_burst:
  assumes t12: "t1 \<le> t2" and t23: "t2 \<le> t3"
    and rest: "\<forall>x \<in> set rest. t3 \<le> x \<and> x \<le> tn"
    and tn: "t3 \<le> tn" "tn - t1 < 1000000000"
  shows "allows (t1 # t2 # t3 # rest @ [tn + 1000000000, tn + 1000000000]) (NewLimiter 1 3) =
           [True, True, True] @ replicate (length rest) False @ [True, False]"
proof -
  define d2 :: rat where "d2 = of_int (t2 - t1) / 1000000000"
  define d3 :: rat where "d3 = of_int (t3 - t2) / 1000000000"
  define dn :: rat where "dn = of_int (tn - t3) / 1000000000"
  have d2: "0 \<le> d2" and d3: "0 \<le> d3" and dn: "0 \<le> dn"
    using t12 t23 tn by (simp_all add: d2_def d3_def dn_def)
  have "of_int (t2 - t1) + of_int (t3 - t2) + (of_int (tn - t3) :: rat) = of_int (tn - t1)"
    by simp
  moreover have "(of_int (tn - t1) :: rat) < 1000000000"
    using tn(2) by (simp only: of_int_less_numeral_iff)
  ultimately have sum: "d2 + d3 + dn < 1"
    unfolding d2_def d3_def dn_def by (simp add: field_simps)
  let ?l1 = "\<lparr>limit = 1, burst = 3, tokens = 2, last_t = t1\<rparr>"
  let ?l2 = "\<lparr>limit = 1, burst = 3, tokens = 1 + d2, last_t = t2\<rparr>"
  let ?l3 = "\<lparr>limit = 1, burst = 3, tokens = d2 + d3, last_t = t3\<rparr>"
  let ?l4 = "\<lparr>limit = 1, burst = 3, tokens = d2 + d3 + dn, last_t = tn + 1000000000\<rparr>"
  have a1: "Allow t1 (NewLimiter 1 3) = (True, ?l1)" by (rule Allow_fresh)
  have a2: "Allow t2 ?l1 = (True, ?l2)"
    using t12 d2 d3 dn sum by (subst Allow_step) (simp_all del: of_int_diff add: d2_def [symmetric])
  have a3: "Allow t3 ?l2 = (True, ?l3)"
    using t23 d2 d3 dn sum by (subst Allow_step) (simp_all del: of_int_diff add: d3_def [symmetric])
  have den: "allows (rest @ ys) ?l3 = replicate (length rest) False @ allows ys ?l3" for ys
  proof (rule allows_denied)
    show "\<forall>x \<in> set rest. last_t ?l3 \<le> x \<and>
        tokens ?l3 + of_int (x - last_t ?l3) / 1000000000 < 1"
    proof
      fix x assume "x \<in> set rest"
      with rest have x: "t3 \<le> x" "x \<le> tn" by auto
      define q :: rat where "q = of_int (x - t3) / 1000000000"
      have "(of_int (x - t3) :: rat) \<le> of_int (tn - t3)" using x by simp
      then have "q \<le> dn"
        unfolding dn_def q_def by (rule divide_right_mono) simp
      with sum have "d2 + d3 + q < 1" by linarith
      with x have "t3 \<le> x \<and> d2 + d3 + of_int (x - t3) / 1000000000 < 1"
        unfolding q_def by blast
      then show "last_t ?l3 \<le> x \<and> tokens ?l3 + of_int (x - last_t ?l3) / 1000000000 < 1"
        by (simp only: Limiter.select_convs)
    qed
  qed simp_all
  have e4: "(of_int (tn + 1000000000 - t3) :: rat) / 1000000000 = dn + 1"
    unfolding dn_def by (simp add: field_simps)
  have a4: "Allow (tn + 1000000000) ?l3 = (True, ?l4)"
    using tn d2 d3 dn sum by (subst Allow_step) (simp_all del: of_int_diff add: e4)
  have a5: "Allow (tn + 1000000000) ?l4 = (False, ?l4)"
    using d2 d3 dn sum by (subst Allow_step) (simp_all del: of_int_diff)
  show ?thesis
    by (simp add: a1 a2 a3 den a4 a5)
qed

section \<open>The sample network, evaluated\<close>

lemmas sample_defs = env0_def page0_def page1_def home1_def meta_tag_def get_def init_def
  NewLimiter_def ResponseItem_zero_def WebImage_zero_def

lemmas run_defs = fetchMetadata_def Visit_def cache_Get_def cache_Set_def cache_result_def
  handleOnHTML_def run_callback_def callbacks_def callbacks2_def matches_any_def Attr_def
  new_scrape_def getBaseDomain_def OnScraped_def sel_description_def sel_icon_def
  sel_site_name_def sel_og_title_def DefaultExpiration_def

lemma sample_miss: "cache_Get (cch init) 0 ''http://a.test/p'' = None"
  by (simp add: cache_Get_def init_def)

lemma sample_doc: "http_get env0 (length (fetches init)) ''http://a.test/p'' = Some page0"
  by (simp add: sample_defs)

lemma sample_desc: "filter (matches_any sel_description) page0 = [meta_tag ''name'' ''description'' ''first'', meta_tag ''name'' ''description'' ''second'']"
  by (simp add: page0_def meta_tag_def matches_any_def sel_description_def)

lemma sample_scrape:
  "result (OnScraped (handleOnHTML (callbacks env0) page0 (new_scrape env0 ''http://a.test/p''))) = rec0"
  by (simp add: run_defs sample_defs on_defs rec0_def)

lemma sample_fetch_ok: "fst (fetchMetadata env0 0 0 ''http://a.test/p'' init) = Inr 0"
  by (simp add: run_defs sample_defs on_defs)

lemma sample_fetch:
  "fetchMetadata env0 0 0 ''http://a.test/p'' (init\<lparr>rateLimiter := l\<rparr>) =
     (Inr 0, init\<lparr>rateLimiter := l, fetches := [''http://a.test/p''], heap := (heap init)(0 := rec0),
        next_ptr := 1, cch := (cch init)(''http://a.test/p'' \<mapsto> (0, 1800000000000))\<rparr>)"
proof -
  have miss: "cache_Get (cch (init\<lparr>rateLimiter := l\<rparr>)) 0 ''http://a.test/p'' = None"
    by (simp add: cache_Get_def init_def)
  have doc: "http_get env0 0 ''http://a.test/p'' = Some page0" by (simp add: env0_def)
  have f: "fetches (init\<lparr>rateLimiter := l\<rparr>) = []" "next_ptr (init\<lparr>rateLimiter := l\<rparr>) = 0"
    by (simp_all add: init_def)
  show ?thesis
    by (simp add: fetchMetadata_miss [OF miss] f doc Let_def sample_scrape cache_result_def
        cache_Set_def DefaultExpiration_def) (simp add: rec0_def init_def)
qed

lemma Allow_init: "Allow 0 (rateLimiter init) = (True, \<lparr>limit = 1, burst = 3, tokens = 2, last_t = 0\<rparr>)"
  by (simp add: Allow_def advance_def init_def NewLimiter_def)

lemma s1_eq:
  "s1 = init\<lparr>rateLimiter := \<lparr>limit = 1, burst = 3, tokens = 2, last_t = 0\<rparr>,
        fetches := [''http://a.test/p''], heap := (heap init)(0 := rec0\<lparr>Duration := 5\<rparr>),
        next_ptr := 1, cch := (cch init)(''http://a.test/p'' \<mapsto> (0, 1800000000000))\<rparr>"
proof -
  have a: "Allow 0 (rateLimiter init) = (True, \<lparr>limit = 1, burst = 3, tokens = 2, last_t = 0\<rparr>)"
    by (simp add: Allow_def advance_def init_def NewLimiter_def)
  show ?thesis
    unfolding s1_def
    by (simp add: extractHandler_unfold a get_def Query_def sample_fetch respond_def Let_def)
qed

lemma sample_first:
  "extractHandler env0 (get ''http://a.test/p'' 0 5) init =
     (JSON 200 (Metadata (rec0\<lparr>Duration := 5\<rparr>)), s1)"
proof -
  have a: "Allow 0 (rateLimiter init) = (True, \<lparr>limit = 1, burst = 3, tokens = 2, last_t = 0\<rparr>)"
    by (simp add: Allow_def advance_def init_def NewLimiter_def)
  show ?thesis
    unfolding s1_eq
    by (simp add: extractHandler_unfold a get_def Query_def sample_fetch respond_def Let_def)
qed

lemma s2_eq:
  "s2 = s1\<lparr>rateLimiter := \<lparr>limit = 1, burst = 3, tokens = 2, last_t = 1000000000\<rparr>,
        heap := (heap s1)(0 := (heap s1 0)\<lparr>Duration := 7\<rparr>)\<rparr>"
proof -
  have a: "Allow 1000000000 (rateLimiter s1) =
      (True, \<lparr>limit = 1, burst = 3, tokens = 2, last_t = 1000000000\<rparr>)"
    by (simp add: s1_eq Allow_def advance_def)
  have hit: "cache_Get (cch s1) 1000000000 ''http://a.test/p'' = Some 0"
    by (simp add: s1_eq cache_Get_def)
  show ?thesis
    unfolding s2_def
    by (subst extractHandler_hit [where p = 0]) (simp_all add: a hit get_def Query_def)
qed

lemma wf_s1: "wf s1"
  unfolding s1_def by (rule wf_extractHandler) (rule wf_init)


section \<open>The claims\<close>

text \<open>
  C1. A present url that fails URI validation should be answered 400 \<^verbatim>\<open>Invalid URL\<close>
  with no fetch. The handler of the root main does so (above, for every request and
  every \<^verbatim>\<open>GetMetadata\<close>). The handler of src/link-to-JSON.go has no validation: for
  \<^verbatim>\<open>url=not-a-url\<close> on a fresh process it visits the url and answers 500, where the
  root main answers 400 and visits nothing.
\<close>

theorem no_validation_in_link_to_JSON:
  "\<not> URL_ParseRequestURI env0 ''not-a-url'' \<and>
   fst (extractHandler env0 (get ''not-a-url'' 0 5) init) =
     JSON 500 (H ''Failed to fetch metadata'') \<and>
   fetches (snd (extractHandler env0 (get ''not-a-url'' 0 5) init)) = [''not-a-url''] \<and>
   fst (extractMainHandler env0 (fetchMetadata env0 0 0) (get ''not-a-url'' 0 5) init) =
     JSON 400 (H ''Invalid URL'') \<and>
   fetches (snd (extractMainHandler env0 (fetchMetadata env0 0 0) (get ''not-a-url'' 0 5) init)) = []"
proof -
  let ?rq = "get ''not-a-url'' 0 5"
  let ?s0 = "init\<lparr>rateLimiter := \<lparr>limit = 1, burst = 3, tokens = 2, last_t = 0\<rparr>\<rparr>"
  have q: "Query ?rq = ''not-a-url''" "t_lookup ?rq = 0" "t_store ?rq = 0" "t_arrival ?rq = 0"
    by (simp_all add: get_def Query_def)
  have v: "\<not> URL_ParseRequestURI env0 ''not-a-url''" by (simp add: env0_def)
  have miss: "cache_Get (cch ?s0) 0 ''not-a-url'' = None" by (simp add: cache_Get_def init_def)
  have n: "http_get env0 (length (fetches ?s0)) ''not-a-url'' = None" by (simp add: env0_def)
  have f: "fetchMetadata env0 0 0 ''not-a-url'' ?s0 =
      (Inl VisitError, ?s0\<lparr>fetches := [''not-a-url'']\<rparr>)"
    using n by (simp add: fetchMetadata_miss [OF miss]) (simp add: init_def)
  have 1: "extractHandler env0 ?rq init =
      (JSON 500 (H ''Failed to fetch metadata''), ?s0\<lparr>fetches := [''not-a-url'']\<rparr>)"
    by (simp add: extractHandler_unfold q Allow_init f Let_def)
  have 2: "extractMainHandler env0 (fetchMetadata env0 0 0) ?rq init =
      (JSON 400 (H ''Invalid URL''), ?s0)"
    by (simp add: extractMainHandler_def q Allow_init v)
  show ?thesis
    by (simp add: 1 2 v) (simp add: init_def)
qed

text \<open>
  C2, as stated, fails: the cache holds a pointer and the handler writes the duration
  through it. After a first request answered in 5 ms the stored record has duration 5;
  a second request, a cache hit that fetches nothing, leaves the same entry in the
  cache with duration 7.
\<close>

theorem stored_record_mutated:
  "cch s1 ''http://a.test/p'' = Some (0, 1800000000000) \<and>
   cch s2 ''http://a.test/p'' = Some (0, 1800000000000) \<and>
   fetches s2 = fetches s1 \<and>
   Duration (heap s1 0) = 5 \<and> Duration (heap s2 0) = 7 \<and> heap s2 0 \<noteq> heap s1 0"
  by (simp add: s2_eq s1_eq rec0_def)

text \<open>
  C2, amended. Serving a request leaves every field but the duration of every stored
  record as it was; and a response 200 is the record the cache holds for the url, whose
  duration in the store is now that of this request.
\<close>

theorem serving_changes_only_duration:
  assumes wf: "wf s" and stored: "cch s u = Some (p, e)"
  shows "heap (snd (extractHandler ev rq s)) p =
           (heap s p)\<lparr>Duration := Duration (heap (snd (extractHandler ev rq s)) p)\<rparr> \<and>
         (status (fst (extractHandler ev rq s)) = 200 \<longrightarrow>
            (\<exists>q e'. cch (snd (extractHandler ev rq s)) (Query rq) = Some (q, e') \<and>
               fst (extractHandler ev rq s) =
                 JSON 200 (Metadata (heap (snd (extractHandler ev rq s)) q)) \<and>
               Duration (heap (snd (extractHandler ev rq s)) q) = elapsed_ms rq))"
proof -
  let ?s0 = "s\<lparr>rateLimiter := snd (Allow (t_arrival rq) (rateLimiter s))\<rparr>"
  from wf stored have lt: "p < next_ptr s" by (auto simp: wf_def)
  have 1: "heap (snd (extractHandler ev rq s)) p =
           (heap s p)\<lparr>Duration := Duration (heap (snd (extractHandler ev rq s)) p)\<rparr>"
  proof (cases "cache_Get (cch ?s0) (t_lookup rq) (Query rq)")
    case (Some q)
    then show ?thesis
      by (simp add: extractHandler_unfold fetchMetadata_hit respond_def Let_def)
  next
    case None
    then show ?thesis
    proof (cases rule: fetchMetadata_miss_cases [where ev = ev and t_set = "t_store rq"])
      case (fail fs)
      then show ?thesis
        by (simp add: extractHandler_unfold Let_def)
    next
      case (ok fs r)
      then show ?thesis
        using lt by (simp add: extractHandler_unfold respond_def Let_def)
    qed
  qed
  have 2: "status (fst (extractHandler ev rq s)) = 200 \<longrightarrow>
            (\<exists>q e'. cch (snd (extractHandler ev rq s)) (Query rq) = Some (q, e') \<and>
               fst (extractHandler ev rq s) =
                 JSON 200 (Metadata (heap (snd (extractHandler ev rq s)) q)) \<and>
               Duration (heap (snd (extractHandler ev rq s)) q) = elapsed_ms rq)"
    using extractHandler_200 by blast
  from 1 2 show ?thesis by blast
qed

theorem serving_changes_only_duration_witness:
  "wf s1 \<and> cch s1 ''http://a.test/p'' = Some (0, 1800000000000) \<and>
   status (fst (extractHandler env0 (get ''http://a.test/p'' 1000000000 7) s1)) = 200 \<and>
   heap s2 0 = (heap s1 0)\<lparr>Duration := 7\<rparr> \<and>
   fst (extractHandler env0 (get ''http://a.test/p'' 1000000000 7) s1) =
     JSON 200 (Metadata (heap s2 0))"
proof -
  let ?rq2 = "get ''http://a.test/p'' 1000000000 7"
  have c: "cch s1 ''http://a.test/p'' = Some (0, 1800000000000)" by (simp add: s1_eq)
  have a: "fst (Allow (t_arrival ?rq2) (rateLimiter s1))"
    by (simp add: s1_eq Allow_def advance_def get_def)
  have u: "Query ?rq2 \<noteq> []" by (simp add: get_def Query_def)
  have hit: "cache_Get (cch s1) (t_lookup ?rq2) (Query ?rq2) = Some 0"
    by (simp add: s1_eq cache_Get_def get_def Query_def)
  have e: "elapsed_ms ?rq2 = 7" by (simp add: get_def)
  have r: "fst (extractHandler env0 ?rq2 s1) = JSON 200 (Metadata ((heap s1 0)\<lparr>Duration := 7\<rparr>))"
    by (simp add: extractHandler_hit [OF a u hit] e)
  then have st: "status (fst (extractHandler env0 ?rq2 s1)) = 200" by (simp add: JSON_def)
  have d: "Duration (heap s2 0) = 7" by (simp add: s2_eq)
  from serving_changes_only_duration [OF wf_s1 c, of env0 ?rq2]
  have "heap s2 0 = (heap s1 0)\<lparr>Duration := 7\<rparr>"
    unfolding s2_def [symmetric] d by blast
  with wf_s1 c st r show ?thesis by simp
qed

text \<open>
  C3. On a cache miss, when the primary visit fails, or it succeeds with an empty site
  name and the visit of the domain fails, \<^verbatim>\<open>fetchMetadata\<close> returns the error, the cache
  and the stored records are as before, and a request admitted by the limiter is
  answered 500 \<^verbatim>\<open>Failed to fetch metadata\<close>.
\<close>

theorem fetch_failure_aborts:
  assumes miss: "cache_Get (cch s) (t_lookup rq) (Query rq) = None"
    and fail: "http_get ev (length (fetches s)) (Query rq) = None \<or>
       (\<exists>doc. http_get ev (length (fetches s)) (Query rq) = Some doc \<and>
          Sitename (result (OnScraped (handleOnHTML (callbacks ev) doc
             (new_scrape ev (Query rq))))) = [] \<and>
          http_get ev (Suc (length (fetches s))) (getBaseDomain ev (Query rq)) = None)"
  shows "fst (fetchMetadata ev (t_lookup rq) (t_store rq) (Query rq) s) = Inl VisitError \<and>
         cch (snd (fetchMetadata ev (t_lookup rq) (t_store rq) (Query rq) s)) = cch s \<and>
         heap (snd (fetchMetadata ev (t_lookup rq) (t_store rq) (Query rq) s)) = heap s \<and>
         (fst (Allow (t_arrival rq) (rateLimiter s)) \<and> Query rq \<noteq> [] \<longrightarrow>
            fst (extractHandler ev rq s) = JSON 500 (H ''Failed to fetch metadata'') \<and>
            cch (snd (extractHandler ev rq s)) = cch s \<and>
            heap (snd (extractHandler ev rq s)) = heap s)"
proof -
  let ?s0 = "s\<lparr>rateLimiter := snd (Allow (t_arrival rq) (rateLimiter s))\<rparr>"
  have 1: "fst (fetchMetadata ev (t_lookup rq) (t_store rq) (Query rq) s) = Inl VisitError \<and>
         cch (snd (fetchMetadata ev (t_lookup rq) (t_store rq) (Query rq) s)) = cch s \<and>
         heap (snd (fetchMetadata ev (t_lookup rq) (t_store rq) (Query rq) s)) = heap s"
    by (rule fetch_fails [OF miss fail])
  have 2: "fst (fetchMetadata ev (t_lookup rq) (t_store rq) (Query rq) ?s0) = Inl VisitError \<and>
         cch (snd (fetchMetadata ev (t_lookup rq) (t_store rq) (Query rq) ?s0)) = cch ?s0 \<and>
         heap (snd (fetchMetadata ev (t_lookup rq) (t_store rq) (Query rq) ?s0)) = heap ?s0"
    by (rule fetch_fails) (use miss fail in simp_all)
  show ?thesis
    using 1 2 by (simp add: extractHandler_unfold Let_def)
qed

theorem fetch_failure_aborts_witness:
  "cache_Get (cch init) 0 ''http://down.test/'' = None \<and>
   http_get env0 0 ''http://down.test/'' = None \<and>
   fst (Allow 0 (rateLimiter init)) \<and>
   fst (fetchMetadata env0 0 0 ''http://down.test/'' init) = Inl VisitError \<and>
   fst (extractHandler env0 (get ''http://down.test/'' 0 5) init) =
     JSON 500 (H ''Failed to fetch metadata'') \<and>
   cch (snd (extractHandler env0 (get ''http://down.test/'' 0 5) init)) = cch init \<and>
   http_get env0 0 ''http://c.test/r'' = Some page1 \<and>
   Sitename (result (OnScraped (handleOnHTML (callbacks env0) page1
     (new_scrape env0 ''http://c.test/r'')))) = [] \<and>
   getBaseDomain env0 ''http://c.test/r'' = ''http://c.test'' \<and>
   http_get env0 1 ''http://c.test'' = None \<and>
   fst (extractHandler env0 (get ''http://c.test/r'' 0 5) init) =
     JSON 500 (H ''Failed to fetch metadata'') \<and>
   cch (snd (extractHandler env0 (get ''http://c.test/r'' 0 5) init)) = cch init"
proof -
  let ?rq = "get ''http://down.test/'' 0 5" and ?rq' = "get ''http://c.test/r'' 0 5"
  have q: "Query (get u 0 5) = u" "t_lookup (get u 0 5) = 0" "t_store (get u 0 5) = 0"
    "t_arrival (get u 0 5) = 0" for u
    by (simp_all add: get_def Query_def)
  have h1: "cache_Get (cch init) (t_lookup (get u 0 5)) (Query (get u 0 5)) = None" for u
    by (simp add: q cache_Get_def init_def)
  have n: "http_get env0 (length (fetches init)) (Query ?rq) = None"
    by (simp add: q env0_def init_def)
  have a: "fst (Allow (t_arrival (get u 0 5)) (rateLimiter init))" for u
    by (simp add: q Allow_init)
  have d: "http_get env0 k ''http://c.test/r'' = Some page1" for k
    by (simp add: env0_def)
  have sn: "Sitename (result (OnScraped (handleOnHTML (callbacks env0) page1
      (new_scrape env0 ''http://c.test/r'')))) = []"
    by (simp add: Sitename_scraped page1_def matches_any_def sel_site_name_def)
  have g: "getBaseDomain env0 ''http://c.test/r'' = ''http://c.test''"
    by (simp add: getBaseDomain_def env0_def)
  have b: "http_get env0 k ''http://c.test'' = None" for k
    by (simp add: env0_def)
  have n': "http_get env0 (length (fetches init)) (Query ?rq') = None \<or>
     (\<exists>doc. http_get env0 (length (fetches init)) (Query ?rq') = Some doc \<and>
        Sitename (result (OnScraped (handleOnHTML (callbacks env0) doc
          (new_scrape env0 (Query ?rq'))))) = [] \<and>
        http_get env0 (Suc (length (fetches init))) (getBaseDomain env0 (Query ?rq')) = None)"
    unfolding q g using d sn b by blast
  from fetch_failure_aborts [OF h1 disjI1 [OF n]] fetch_failure_aborts [OF h1 n']
    h1 n a d sn b g
  show ?thesis
    by (simp add: q init_def)
qed




text \<open>
  C5. After a request answered 200, a request for the same url that the limiter admits
  and whose lookup finds the entry unexpired performs no visit and is answered 200 with
  the record of the first response, the duration apart.
\<close>

theorem second_request_served_from_cache:
  assumes first: "status (fst (extractHandler ev rq1 s)) = 200"
    and same: "Query rq2 = Query rq1"
    and adm: "fst (Allow (t_arrival rq2) (rateLimiter (snd (extractHandler ev rq1 s))))"
    and ttl: "cache_Get (cch (snd (extractHandler ev rq1 s))) (t_lookup rq2) (Query rq1) \<noteq> None"
  shows "fetches (snd (extractHandler ev rq2 (snd (extractHandler ev rq1 s)))) =
           fetches (snd (extractHandler ev rq1 s)) \<and>
         (\<exists>r. fst (extractHandler ev rq1 s) = JSON 200 (Metadata r) \<and>
              fst (extractHandler ev rq2 (snd (extractHandler ev rq1 s))) =
                JSON 200 (Metadata (r\<lparr>Duration := elapsed_ms rq2\<rparr>)))"
proof -
  let ?s1 = "snd (extractHandler ev rq1 s)"
  from extractHandler_200 [OF first] obtain p e where
    c: "cch ?s1 (Query rq1) = Some (p, e)" and
    r: "fst (extractHandler ev rq1 s) = JSON 200 (Metadata (heap ?s1 p))"
    by blast
  from first have url: "Query rq2 \<noteq> []" unfolding same
    by (auto simp: extractHandler_def JSON_def Let_def split: prod.splits if_splits)
  from ttl c have hit: "cache_Get (cch ?s1) (t_lookup rq2) (Query rq2) = Some p"
    unfolding same by (auto simp: cache_Get_def split: if_splits)
  have "fst (extractHandler ev rq2 ?s1) =
      JSON 200 (Metadata ((heap ?s1 p)\<lparr>Duration := elapsed_ms rq2\<rparr>))"
    by (simp add: extractHandler_hit [OF adm url hit])
  with r have "\<exists>r. fst (extractHandler ev rq1 s) = JSON 200 (Metadata r) \<and>
      fst (extractHandler ev rq2 ?s1) = JSON 200 (Metadata (r\<lparr>Duration := elapsed_ms rq2\<rparr>))"
    by blast
  moreover have "fetches (snd (extractHandler ev rq2 ?s1)) = fetches ?s1"
    by (simp add: extractHandler_hit [OF adm url hit])
  ultimately show ?thesis by blast
qed

theorem second_request_served_from_cache_witness:
  "status (fst (extractHandler env0 (get ''http://a.test/p'' 0 5) init)) = 200 \<and>
   Query (get ''http://a.test/p'' 1000000000 7) = Query (get ''http://a.test/p'' 0 5) \<and>
   fst (Allow (t_arrival (get ''http://a.test/p'' 1000000000 7)) (rateLimiter s1)) \<and>
   cache_Get (cch s1) (t_lookup (get ''http://a.test/p'' 1000000000 7))
     (Query (get ''http://a.test/p'' 0 5)) \<noteq> None \<and>
   fetches (snd (extractHandler env0 (get ''http://a.test/p'' 1000000000 7) s1)) =
     [''http://a.test/p''] \<and>
   fst (extractHandler env0 (get ''http://a.test/p'' 0 5) init) =
     JSON 200 (Metadata (rec0\<lparr>Duration := 5\<rparr>)) \<and>
   fst (extractHandler env0 (get ''http://a.test/p'' 1000000000 7) s1) =
     JSON 200 (Metadata (rec0\<lparr>Duration := 7\<rparr>))"
proof -
  let ?rq1 = "get ''http://a.test/p'' 0 5" and ?rq2 = "get ''http://a.test/p'' 1000000000 7"
  have s: "snd (extractHandler env0 ?rq1 init) = s1" by (simp add: sample_first)
  have h1: "status (fst (extractHandler env0 ?rq1 init)) = 200"
    by (simp add: sample_first JSON_def)
  have h2: "Query ?rq2 = Query ?rq1" by (simp add: get_def Query_def)
  have h3: "fst (Allow (t_arrival ?rq2) (rateLimiter (snd (extractHandler env0 ?rq1 init))))"
    unfolding s by (simp add: s1_eq Allow_def advance_def get_def)
  have h4: "cache_Get (cch (snd (extractHandler env0 ?rq1 init))) (t_lookup ?rq2) (Query ?rq1) \<noteq> None"
    unfolding s by (simp add: s1_eq cache_Get_def get_def Query_def)
  have inj: "JSON 200 (Metadata r) = JSON 200 (Metadata r') \<longleftrightarrow> r = r'" for r r'
    by (simp add: JSON_def)
  from second_request_served_from_cache [OF h1 h2 h3 h4] obtain r where
    c1: "fetches (snd (extractHandler env0 ?rq2 (snd (extractHandler env0 ?rq1 init)))) =
           fetches (snd (extractHandler env0 ?rq1 init))" and
    c2: "fst (extractHandler env0 ?rq1 init) = JSON 200 (Metadata r)" and
    c3: "fst (extractHandler env0 ?rq2 (snd (extractHandler env0 ?rq1 init))) =
           JSON 200 (Metadata (r\<lparr>Duration := elapsed_ms ?rq2\<rparr>))"
    by blast
  from c2 have r: "r = rec0\<lparr>Duration := 5\<rparr>" by (simp add: sample_first inj)
  have e: "elapsed_ms ?rq2 = 7" by (simp add: get_def)
  have f: "fetches s1 = [''http://a.test/p'']" by (simp add: s1_eq)
  from c1 c3 h1 h2 h3 h4 show ?thesis
    unfolding s r e by (simp add: sample_first f)
qed

text \<open>
  C6. From a fresh limiter, of more than three requests arriving within less than a
  second the first three are admitted and all others answered 429
  \<^verbatim>\<open>Too many requests\<close>; of two requests arriving one second after the last of them,
  the first is admitted and the second answered 429.
\<close>

theorem burst_three_then_one_per_second:
  assumes fresh: "rateLimiter s = NewLimiter 1 3"
    and sorted: "sorted (map t_arrival rqs)"
    and more: "3 < length rqs"
    and within: "t_arrival (last rqs) - t_arrival (hd rqs) < 1000000000"
    and later: "t_arrival a = t_arrival (last rqs) + 1000000000" "t_arrival b = t_arrival a"
  shows "map (\<lambda>r. r = JSON 429 (H ''Too many requests'')) (fst (serve ev (rqs @ [a, b]) s)) =
           replicate 3 False @ replicate (length rqs - 3) True @ [False, True]"
proof -
  from more obtain r1 r2 r3 rest where rqs: "rqs = r1 # r2 # r3 # rest" and ne: "rest \<noteq> []"
    by (cases rqs; cases "tl rqs"; cases "tl (tl rqs)"; cases "tl (tl (tl rqs))") auto
  let ?tn = "t_arrival (last rest)"
  have l: "last rqs = last rest" using rqs ne by simp
  from sorted have o: "t_arrival r1 \<le> t_arrival r2" "t_arrival r2 \<le> t_arrival r3"
    "\<forall>x \<in> set (map t_arrival rest). t_arrival r3 \<le> x"
    unfolding rqs by auto
  have srest: "sorted (map t_arrival rest)" using sorted unfolding rqs by simp
  have up: "\<forall>x \<in> set (map t_arrival rest). x \<le> ?tn"
  proof
    fix x assume "x \<in> set (map t_arrival rest)"
    then obtain i where i: "i < length rest" "x = map t_arrival rest ! i"
      by (metis in_set_conv_nth length_map)
    have "map t_arrival rest ! i \<le> map t_arrival rest ! (length rest - 1)"
      using srest i(1) by (intro sorted_nth_mono) simp_all
    with i ne show "x \<le> ?tn" by (simp add: last_conv_nth)
  qed
  have t3n: "t_arrival r3 \<le> ?tn" using o(3) ne by simp
  have w: "?tn - t_arrival r1 < 1000000000" using within unfolding l by (simp add: rqs)
  have b: "\<forall>x \<in> set (map t_arrival rest). t_arrival r3 \<le> x \<and> x \<le> ?tn"
    using o(3) up by blast
  have ts: "map t_arrival (rqs @ [a, b]) =
      t_arrival r1 # t_arrival r2 # t_arrival r3 #
        map t_arrival rest @ [?tn + 1000000000, ?tn + 1000000000]"
    using later unfolding l by (simp add: rqs)
  have F: "allows (map t_arrival (rqs @ [a, b])) (NewLimiter 1 3) =
      [True, True, True] @ replicate (length (map t_arrival rest)) False @ [True, False]"
    unfolding ts by (rule allows_burst [OF o(1) o(2) b t3n w])
  have "map (\<lambda>r. r = JSON 429 (H ''Too many requests'')) (fst (serve ev (rqs @ [a, b]) s)) =
      map Not (allows (map t_arrival (rqs @ [a, b])) (NewLimiter 1 3))"
    by (simp only: serve_allows fresh)
  also have "\<dots> = map Not ([True, True, True] @ replicate (length (map t_arrival rest)) False @
      [True, False])"
    by (simp only: F)
  also have "\<dots> = replicate 3 False @ replicate (length rqs - 3) True @ [False, True]"
    by (simp add: rqs numeral_3_eq_3)
  finally show ?thesis .
qed

theorem burst_three_then_one_per_second_witness:
  "rateLimiter init = NewLimiter 1 3 \<and>
   sorted (map t_arrival [get [] 0 1, get [] 300000000 1, get [] 600000000 1, get [] 900000000 1]) \<and>
   3 < length [get [] 0 1, get [] 300000000 1, get [] 600000000 1, get [] 900000000 1] \<and>
   t_arrival (get [] 900000000 1) - t_arrival (get [] 0 1) < 1000000000 \<and>
   t_arrival (get [] 1900000000 1) = t_arrival (get [] 900000000 1) + 1000000000 \<and>
   map (\<lambda>r. r = JSON 429 (H ''Too many requests''))
     (fst (serve env0
        [get [] 0 1, get [] 300000000 1, get [] 600000000 1, get [] 900000000 1,
         get [] 1900000000 1, get [] 1900000000 1] init)) =
     [False, False, False, True, False, True]"
proof -
  let ?rqs = "[get [] 0 1, get [] 300000000 1, get [] 600000000 1, get [] 900000000 1]"
  let ?a = "get [] 1900000000 1"
  have t: "t_arrival (get u x y) = x" for u x y by (simp add: get_def)
  have h1: "rateLimiter init = NewLimiter 1 3" by (simp add: init_def)
  have h2: "sorted (map t_arrival ?rqs)" by (simp add: t)
  have h3: "3 < length ?rqs" by simp
  have h4: "t_arrival (last ?rqs) - t_arrival (hd ?rqs) < 1000000000" by (simp add: t)
  have h5: "t_arrival ?a = t_arrival (last ?rqs) + 1000000000" by (simp add: t)
  have h6: "t_arrival ?a = t_arrival ?a" by simp
  from burst_three_then_one_per_second [OF h1 h2 h3 h4 h5 h6, of env0] h1 h2 h3 h4 h5
  show ?thesis
    by (simp add: numeral_3_eq_3)
qed

text \<open>
  C7. On a cache miss with a primary document: the site name scraped is the content of
  the last \<^verbatim>\<open>og:site_name\<close> tag, empty without one. If it is not empty, the url is
  the only visit and the record is the one scraped. If it is empty, exactly one more
  visit follows, of the domain; when it succeeds the record is the one scraped with
  only the site name replaced, by the content of the last \<^verbatim>\<open>og:title\<close> tag of the
  second document, empty without one.
\<close>

theorem site_name_fallback:
  assumes miss: "cache_Get (cch s) t_get url = None"
    and doc: "http_get ev (length (fetches s)) url = Some doc"
  shows "(let r1 = result (OnScraped (handleOnHTML (callbacks ev) doc (new_scrape ev url)));
              out = fetchMetadata ev t_get t_set url s
          in Sitename r1 =
               (if filter (matches_any sel_site_name) doc = [] then []
                else Attr (last (filter (matches_any sel_site_name) doc)) ''content'') \<and>
             (if Sitename r1 \<noteq> []
              then fetches (snd out) = fetches s @ [url] \<and>
                   fst out = Inr (next_ptr s) \<and> heap (snd out) (next_ptr s) = r1
              else fetches (snd out) = fetches s @ [url, getBaseDomain ev url] \<and>
                   (case http_get ev (Suc (length (fetches s))) (getBaseDomain ev url) of
                      None \<Rightarrow> fst out = Inl VisitError
                    | Some doc2 \<Rightarrow>
                        fst out = Inr (next_ptr s) \<and>
                        heap (snd out) (next_ptr s) =
                          r1\<lparr>Sitename :=
                               (if filter (matches_any sel_og_title) doc2 = [] then []
                                else Attr (last (filter (matches_any sel_og_title) doc2))
                                       ''content'')\<rparr>)))"
proof -
  let ?st1 = "OnScraped (handleOnHTML (callbacks ev) doc (new_scrape ev url))"
  let ?out = "fetchMetadata ev t_get t_set url s"
  have dom: "Domain_f (result ?st1) = getBaseDomain ev url" by (rule Domain_scraped)
  have a: "Sitename (result ?st1) =
      (if filter (matches_any sel_site_name) doc = [] then []
       else Attr (last (filter (matches_any sel_site_name) doc)) ''content'')"
    by (rule Sitename_scraped)
  have b: "fetches (snd ?out) = fetches s @ [url] \<and>
      fst ?out = Inr (next_ptr s) \<and> heap (snd ?out) (next_ptr s) = result ?st1"
    if "Sitename (result ?st1) \<noteq> []"
    using that by (simp add: fetchMetadata_miss [OF miss] doc Let_def cache_result_def)
  have c: "fetches (snd ?out) = fetches s @ [url, getBaseDomain ev url] \<and>
      (case http_get ev (Suc (length (fetches s))) (getBaseDomain ev url) of
         None \<Rightarrow> fst ?out = Inl VisitError
       | Some doc2 \<Rightarrow>
           fst ?out = Inr (next_ptr s) \<and>
           heap (snd ?out) (next_ptr s) =
             (result ?st1)\<lparr>Sitename :=
                  (if filter (matches_any sel_og_title) doc2 = [] then []
                   else Attr (last (filter (matches_any sel_og_title) doc2)) ''content'')\<rparr>)"
    if "Sitename (result ?st1) = []"
    using that
    by (simp add: fetchMetadata_miss [OF miss] doc Let_def cache_result_def dom
        handleOnHTML_callbacks2 split: option.splits)
  show ?thesis
    unfolding Let_def
    apply (rule conjI)
     apply (rule a)
    apply (cases "Sitename (result ?st1) = []")
     apply (simp only: c if_False refl if_True simp_thms)
    apply (simp only: b if_True simp_thms)
    done
qed

theorem site_name_fallback_witness:
  "cache_Get (cch init) 0 ''http://b.test/q'' = None \<and>
   http_get env0 (length (fetches init)) ''http://b.test/q'' = Some page1 \<and>
   fetches (snd (fetchMetadata env0 0 0 ''http://b.test/q'' init)) =
     [''http://b.test/q'', ''http://b.test''] \<and>
   Sitename (heap (snd (fetchMetadata env0 0 0 ''http://b.test/q'' init)) 0) = ''B'' \<and>
   cache_Get (cch init) 0 ''http://a.test/p'' = None \<and>
   http_get env0 (length (fetches init)) ''http://a.test/p'' = Some page0 \<and>
   fetches (snd (fetchMetadata env0 0 0 ''http://a.test/p'' init)) = [''http://a.test/p''] \<and>
   Sitename (heap (snd (fetchMetadata env0 0 0 ''http://a.test/p'' init)) 0) = ''A''"
proof -
  have m1: "cache_Get (cch init) 0 ''http://b.test/q'' = None"
    by (simp add: cache_Get_def init_def)
  have d1: "http_get env0 (length (fetches init)) ''http://b.test/q'' = Some page1"
    by (simp add: env0_def)
  have r1: "Sitename (result (OnScraped (handleOnHTML (callbacks env0) page1
      (new_scrape env0 ''http://b.test/q'')))) = []"
    by (simp add: Sitename_scraped page1_def matches_any_def sel_site_name_def)
  have b1: "getBaseDomain env0 ''http://b.test/q'' = ''http://b.test''"
    by (simp add: getBaseDomain_def env0_def)
  have f1: "http_get env0 n ''http://b.test'' = Some home1" for n
    by (simp add: env0_def)
  have t1: "filter (matches_any sel_og_title) home1 = home1"
    by (simp add: home1_def meta_tag_def matches_any_def sel_og_title_def)
  have c1: "Attr (last home1) ''content'' = ''B''" "home1 \<noteq> []"
    by (simp_all add: home1_def meta_tag_def Attr_def)
  have i: "fetches init = []" "next_ptr init = 0" by (simp_all add: init_def)
  have w1: "fetches (snd (fetchMetadata env0 0 0 ''http://b.test/q'' init)) =
     [''http://b.test/q'', ''http://b.test''] \<and>
   Sitename (heap (snd (fetchMetadata env0 0 0 ''http://b.test/q'' init)) 0) = ''B''"
    using site_name_fallback [OF m1 d1, of 0]
    by (simp add: Let_def r1 b1 f1 t1 c1 i)
  have r0: "Sitename (result (OnScraped (handleOnHTML (callbacks env0) page0
      (new_scrape env0 ''http://a.test/p'')))) = ''A''"
    by (simp add: sample_scrape rec0_def)
  have w0: "fetches (snd (fetchMetadata env0 0 0 ''http://a.test/p'' init)) = [''http://a.test/p''] \<and>
   Sitename (heap (snd (fetchMetadata env0 0 0 ''http://a.test/p'' init)) 0) = ''A''"
    using site_name_fallback [OF sample_miss sample_doc, of 0]
    by (simp add: Let_def r0 i)
  from m1 d1 w1 sample_miss sample_doc w0 show ?thesis by blast
qed

text \<open>
  C8. A cache miss that returns a record returns one whose image sequence is exactly
  the one descriptor appended when the document has been scraped, whatever the
  document holds: the sequence of a fresh record has length 1.
\<close>

theorem images_one_descriptor:
  assumes "cache_Get (cch s) t_get url = None"
    and "http_get ev (length (fetches s)) url = Some doc"
    and "fst (fetchMetadata ev t_get t_set url s) = Inr p"
  shows "Images (heap (snd (fetchMetadata ev t_get t_set url s)) p) =
           [webImage (handleOnHTML (callbacks ev) doc (new_scrape ev url))] \<and>
         length (Images (heap (snd (fetchMetadata ev t_get t_set url s)) p)) = 1"
proof -
  from fetchMetadata_miss_record [OF assms] obtain sn where
    "heap (snd (fetchMetadata ev t_get t_set url s)) p =
       (result (OnScraped (handleOnHTML (callbacks ev) doc (new_scrape ev url))))\<lparr>Sitename := sn\<rparr>"
    by blast
  then show ?thesis by (simp add: Images_scraped)
qed

theorem images_one_descriptor_witness:
  "cache_Get (cch init) 0 ''http://a.test/p'' = None \<and>
   http_get env0 (length (fetches init)) ''http://a.test/p'' = Some page0 \<and>
   fst (fetchMetadata env0 0 0 ''http://a.test/p'' init) = Inr 0 \<and>
   length (Images (heap (snd (fetchMetadata env0 0 0 ''http://a.test/p'' init)) 0)) = 1"
  using images_one_descriptor [OF sample_miss sample_doc sample_fetch_ok]
    sample_miss sample_doc sample_fetch_ok
  by simp

text \<open>
  C9. The description of a freshly fetched record is the \<^verbatim>\<open>content\<close> attribute of the
  last \<^verbatim>\<open>meta[name="description"]\<close> element of the document, and the empty string when
  the document has none: with two such tags, the second wins.
\<close>

theorem description_last_match_wins:
  assumes "cache_Get (cch s) t_get url = None"
    and "http_get ev (length (fetches s)) url = Some doc"
    and "fst (fetchMetadata ev t_get t_set url s) = Inr p"
  shows "Description (heap (snd (fetchMetadata ev t_get t_set url s)) p) =
           (if filter (matches_any sel_description) doc = [] then []
            else Attr (last (filter (matches_any sel_description) doc)) ''content'')"
proof -
  from fetchMetadata_miss_record [OF assms] obtain sn where
    "heap (snd (fetchMetadata ev t_get t_set url s)) p =
       (result (OnScraped (handleOnHTML (callbacks ev) doc (new_scrape ev url))))\<lparr>Sitename := sn\<rparr>"
    by blast
  then show ?thesis by (simp add: Description_scraped)
qed

theorem description_last_match_wins_witness:
  "cache_Get (cch init) 0 ''http://a.test/p'' = None \<and>
   http_get env0 (length (fetches init)) ''http://a.test/p'' = Some page0 \<and>
   fst (fetchMetadata env0 0 0 ''http://a.test/p'' init) = Inr 0 \<and>
   Description (heap (snd (fetchMetadata env0 0 0 ''http://a.test/p'' init)) 0) = ''second''"
  using description_last_match_wins [OF sample_miss sample_doc sample_fetch_ok]
    sample_miss sample_doc sample_fetch_ok
  by (simp add: sample_desc) (simp add: Attr_def meta_tag_def)

text \<open>
  C10. Both handlers call \<^verbatim>\<open>Allow\<close> first: a request the limiter denies is answered
  429 whatever its url; a request it admits whose url is missing, or in the root main
  invalid, is answered 400 and leaves the bucket one token down, nothing else changed.
\<close>

theorem limiter_consulted_first:
  "(\<not> fst (Allow (t_arrival rq) (rateLimiter s)) \<longrightarrow>
      fst (extractHandler ev rq s) = JSON 429 (H ''Too many requests'') \<and>
      fst (extractMainHandler ev G rq s) = JSON 429 (H ''Too many requests'')) \<and>
   (fst (Allow (t_arrival rq) (rateLimiter s)) \<and> Query rq = [] \<longrightarrow>
      extractHandler ev rq s =
        (JSON 400 (H ''URL parameter is required''),
         s\<lparr>rateLimiter := (rateLimiter s)\<lparr>tokens := advance (rateLimiter s) (t_arrival rq) - 1,
                                          last_t := t_arrival rq\<rparr>\<rparr>) \<and>
      extractMainHandler ev G rq s =
        (JSON 400 (H ''URL parameter is required''),
         s\<lparr>rateLimiter := (rateLimiter s)\<lparr>tokens := advance (rateLimiter s) (t_arrival rq) - 1,
                                          last_t := t_arrival rq\<rparr>\<rparr>)) \<and>
   (fst (Allow (t_arrival rq) (rateLimiter s)) \<and> Query rq \<noteq> [] \<and>
    \<not> URL_ParseRequestURI ev (Query rq) \<longrightarrow>
      extractMainHandler ev G rq s =
        (JSON 400 (H ''Invalid URL''),
         s\<lparr>rateLimiter := (rateLimiter s)\<lparr>tokens := advance (rateLimiter s) (t_arrival rq) - 1,
                                          last_t := t_arrival rq\<rparr>\<rparr>))"
  by (simp add: extractHandler_def extractMainHandler_def Allow_def Let_def split: prod.splits)

theorem limiter_consulted_first_witness:
  "\<not> fst (Allow 0 \<lparr>limit = 1, burst = 3, tokens = 0, last_t = 0\<rparr>) \<and>
   fst (extractHandler env0 (get [] 0 5)
          (init\<lparr>rateLimiter := \<lparr>limit = 1, burst = 3, tokens = 0, last_t = 0\<rparr>\<rparr>)) =
     JSON 429 (H ''Too many requests'') \<and>
   fst (Allow 0 (rateLimiter init)) \<and> Query (get [] 0 5) = [] \<and>
   extractHandler env0 (get [] 0 5) init =
     (JSON 400 (H ''URL parameter is required''),
      init\<lparr>rateLimiter := \<lparr>limit = 1, burst = 3, tokens = 2, last_t = 0\<rparr>\<rparr>) \<and>
   Query (get ''not-a-url'' 0 5) \<noteq> [] \<and>
   \<not> URL_ParseRequestURI env0 (Query (get ''not-a-url'' 0 5)) \<and>
   extractMainHandler env0 (fetchMetadata env0 0 0) (get ''not-a-url'' 0 5) init =
     (JSON 400 (H ''Invalid URL''),
      init\<lparr>rateLimiter := \<lparr>limit = 1, burst = 3, tokens = 2, last_t = 0\<rparr>\<rparr>)"
proof -
  let ?e = "init\<lparr>rateLimiter := \<lparr>limit = 1, burst = 3, tokens = 0, last_t = 0\<rparr>\<rparr>"
  have q: "Query (get [] 0 5) = []" "Query (get ''not-a-url'' 0 5) = ''not-a-url''"
    "t_arrival (get u 0 5) = 0" for u
    by (simp_all add: get_def Query_def)
  have d: "\<not> fst (Allow 0 \<lparr>limit = 1, burst = 3, tokens = 0, last_t = 0\<rparr>)"
    by (simp add: Allow_def advance_def)
  have v: "\<not> URL_ParseRequestURI env0 ''not-a-url''" by (simp add: env0_def)
  have t: "advance (rateLimiter init) 0 - 1 = 2"
    "(rateLimiter init)\<lparr>tokens := 2, last_t := 0\<rparr> =
       \<lparr>limit = 1, burst = 3, tokens = 2, last_t = 0\<rparr>"
    by (simp_all add: advance_def init_def NewLimiter_def)
  from limiter_consulted_first [of "get [] 0 5" ?e env0 "fetchMetadata env0 0 0"]
    limiter_consulted_first [of "get [] 0 5" init env0 "fetchMetadata env0 0 0"]
    limiter_consulted_first [of "get ''not-a-url'' 0 5" init env0 "fetchMetadata env0 0 0"]
    d v
  show ?thesis
    by (simp add: q Allow_init t)
qed

end
